theory Spec2Isabelle
  imports Complex_Main "HOL-Library.Sublist"
begin

section \<open>Configuration constants of Main.py\<close>

definition AUTHORIZED_ID :: int where
  "AUTHORIZED_ID = 1047839255856"

definition OLED_WIDTH :: int where
  "OLED_WIDTH = 128"

definition OLED_HEIGHT :: int where
  "OLED_HEIGHT = 64"

definition FILE_PATH :: string where
  "FILE_PATH = ''/home/soham/examplelog.txt''"

definition SAVE_PATH :: string where
  "SAVE_PATH = ''/home/soham/qr_debug.png''"

definition IMAGE_DIRECTORY :: string where
  "IMAGE_DIRECTORY = ''/home/soham/captured_images''"

section \<open>Global state variables\<close>

text \<open>
  The five module-level variables guarded by \<open>state_lock\<close>. A card id is a Python
  integer; \<open>None\<close> is the \<open>None\<close> of \<open>option\<close>. Clock values are the results of
  \<open>time.time()\<close>; they are taken as real numbers, so \<open>now - last_removed_time\<close> is
  the exact difference.
\<close>

record shared_state =
  current_card :: "int option"
  last_removed_time :: "real option"
  last_removed_authorized :: bool
  image_captured :: bool
  qr_displayed :: bool

definition initial_state :: shared_state where
  "initial_state =
     \<lparr>current_card = None, last_removed_time = None, last_removed_authorized = False,
      image_captured = False, qr_displayed = False\<rparr>"

section \<open>Collaborators: events, exceptions, images\<close>

text \<open>
  A Python \<open>str\<close> read from the data file is a list of code points. Paths, messages and
  the \<open>strftime\<close> stamp are ASCII and kept as \<open>string\<close>.
\<close>

type_synonym pystr = "nat list"

datatype py_exception = Exception string

record image =
  img_size :: "int \<times> int"
  img_pixels :: "int list"

datatype task = CaptureTask | QrTask

datatype log_line =
    LogDisplaying string
  | LogQrSaved string "int \<times> int"
  | LogNativePosition int int
  | LogDataLength nat
  | LogQrError py_exception
  | LogTimeout
  | LogImageSaved string

text \<open>
  Every call the program makes on something outside its own variables is an event of
  the trace: the lock, \<open>print\<close>, the OLED device, the camera, the file system,
  \<open>time.sleep\<close>, the reader and \<open>threading.Thread(...).start()\<close>.
\<close>

datatype event =
    LockAcquire
  | LockRelease
  | Print log_line
  | ReaderPoll
  | DrawText "int \<times> int" string
  | DrawBlank
  | DrawBitmap "int \<times> int" image
  | DeviceClear
  | Sleep real
  | CameraStart
  | CameraCapture string
  | CameraStop
  | FileRead string
  | FileWrite string
  | MakeDirs string
  | ThreadStart task

text \<open>
  A computation that makes calls and may raise: the events so far, and either the
  exception (\<open>Inl\<close>) or the value returned.
\<close>

type_synonym 'a io = "event list \<times> (py_exception + 'a)"

definition io_emit :: "event list \<Rightarrow> unit io" where
  "io_emit evs = (evs, Inr ())"

definition io_bind :: "'a io \<Rightarrow> ('a \<Rightarrow> 'b io) \<Rightarrow> 'b io" where
  "io_bind m f =
     (case m of
        (evs, Inl e) \<Rightarrow> (evs, Inl e)
      | (evs, Inr x) \<Rightarrow> (case f x of (evs', r) \<Rightarrow> (evs @ evs', r)))"

definition io_catch :: "'a io \<Rightarrow> (py_exception \<Rightarrow> 'a io) \<Rightarrow> 'a io" where
  "io_catch m h =
     (case m of
        (evs, Inl e) \<Rightarrow> (case h e of (evs', r) \<Rightarrow> (evs @ evs', r))
      | (evs, Inr x) \<Rightarrow> (evs, Inr x))"

section \<open>OLED display and QR code functions\<close>

text \<open>
  \<open>display_message\<close>: print, draw the text at (30, 20), sleep 2 seconds, blank the
  display. Each of the two \<open>with canvas(device)\<close> blocks writes to the device and
  either raises or returns; \<open>oled\<close> holds their outcomes, \<open>oled_ok\<close> is the display
  that answers both.
\<close>

record oled =
  draw_text :: "py_exception + unit"
  draw_blank :: "py_exception + unit"

definition oled_ok :: oled where
  "oled_ok = \<lparr>draw_text = Inr (), draw_blank = Inr ()\<rparr>"

definition display_message :: "oled \<Rightarrow> string \<Rightarrow> unit io" where
  "display_message disp message =
     io_bind (io_emit [Print (LogDisplaying message)]) (\<lambda>_.
     io_bind ([DrawText (30, 20) message], draw_text disp) (\<lambda>_.
     io_bind (io_emit [Sleep 2]) (\<lambda>_.
     ([DrawBlank], draw_blank disp))))"

text \<open>
  The outcomes of the calls inside the \<open>try\<close> block of \<open>display_qr\<close>: opening and
  reading \<open>FILE_PATH\<close>, the encoder (\<open>qr.add_data\<close>, \<open>qr.make\<close>, \<open>qr.make_image\<close>,
  \<open>convert\<close>), \<open>img.save\<close>, the canvas drawing and the final \<open>device.clear()\<close> of
  \<open>display_qr_native\<close>, and, last, the \<open>device.clear()\<close> of the \<open>except\<close> handler,
  which no \<open>try\<close> guards. Each either raises or returns.
\<close>

record qr_env =
  read_log :: "py_exception + pystr"
  qr_encode :: "pystr \<Rightarrow> py_exception + image"
  save_image :: "py_exception + unit"
  draw_bitmap :: "py_exception + unit"
  clear_device :: "py_exception + unit"
  handler_clear :: "py_exception + unit"

definition py_isspace :: "nat \<Rightarrow> bool" where
  "py_isspace c \<longleftrightarrow>
     (9 \<le> c \<and> c \<le> 13) \<or> (28 \<le> c \<and> c \<le> 32) \<or> c = 133 \<or> c = 160 \<or> c = 5760 \<or>
     (8192 \<le> c \<and> c \<le> 8202) \<or> c = 8232 \<or> c = 8233 \<or> c = 8239 \<or> c = 8287 \<or> c = 12288"

definition strip :: "pystr \<Rightarrow> pystr" where
  "strip xs = rev (dropWhile py_isspace (rev (dropWhile py_isspace xs)))"

definition generate_qr_code :: "qr_env \<Rightarrow> pystr \<Rightarrow> image io" where
  "generate_qr_code env data =
     io_bind ([], qr_encode env data) (\<lambda>img.
     io_bind ([FileWrite SAVE_PATH], save_image env) (\<lambda>_.
     io_bind (io_emit [Print (LogQrSaved SAVE_PATH (img_size img))]) (\<lambda>_.
     ([], Inr img))))"

definition display_qr_native :: "qr_env \<Rightarrow> image \<Rightarrow> unit io" where
  "display_qr_native env img =
     (let (qr_width, qr_height) = img_size img;
          x = (OLED_WIDTH - qr_width) div 2;
          y = (OLED_HEIGHT - qr_height) div 2;
          inverted_image = img\<lparr>img_pixels := map (\<lambda>x. 255 - x) (img_pixels img)\<rparr>
      in io_bind ([DrawBitmap (x, y) inverted_image], draw_bitmap env) (\<lambda>_.
         io_bind (io_emit [Print (LogNativePosition x y), Sleep 5]) (\<lambda>_.
         ([DeviceClear], clear_device env))))"

definition display_qr :: "qr_env \<Rightarrow> unit io" where
  "display_qr env =
     io_catch
       (io_bind ([FileRead FILE_PATH], read_log env) (\<lambda>raw.
        let data = strip raw in
        io_bind (io_emit [Print (LogDataLength (length data))]) (\<lambda>_.
        io_bind (generate_qr_code env data) (\<lambda>qr_img.
        display_qr_native env qr_img))))
       (\<lambda>e. io_bind (io_emit [Print (LogQrError e)]) (\<lambda>_.
            ([DeviceClear], handler_clear env)))"

section \<open>Camera capture\<close>

record camera =
  cam_start :: "py_exception + unit"
  cam_capture_file :: "py_exception + unit"
  cam_stop :: "py_exception + unit"

text \<open>
  \<open>capture_image\<close> has no \<open>try\<close>: an exception of a camera call leaves the function
  at that call. The globals are assigned only in the last three lines, under the lock.
  The second argument is the result of \<open>time.strftime\<close>; \<open>image_filename\<close> is the
  f-string that builds the path from it.
\<close>

definition image_filename :: "string \<Rightarrow> string" where
  "image_filename timestamp = IMAGE_DIRECTORY @ ''/image_'' @ timestamp @ ''.jpg''"

definition capture_image ::
  "camera \<Rightarrow> string \<Rightarrow> shared_state \<Rightarrow> shared_state \<times> unit io" where
  "capture_image cam timestamp s =
     (let filename = image_filename timestamp;
          shot =
            io_bind (io_emit [Print LogTimeout]) (\<lambda>_.
            io_bind ([CameraStart], cam_start cam) (\<lambda>_.
            io_bind (io_emit [Sleep 2]) (\<lambda>_.
            io_bind ([CameraCapture filename], cam_capture_file cam) (\<lambda>_.
            io_bind ([CameraStop], cam_stop cam) (\<lambda>_.
            io_emit [Print (LogImageSaved filename), Sleep 10])))))
      in case shot of
           (evs, Inl e) \<Rightarrow> (s, (evs, Inl e))
         | (evs, Inr _) \<Rightarrow>
             (s\<lparr>last_removed_time := None, image_captured := False, qr_displayed := False\<rparr>,
              (evs @ [LockAcquire, LockRelease], Inr ())))"

section \<open>Thread functions\<close>

text \<open>
  One iteration of the \<open>while True\<close> loop of \<open>rfid_reader_thread\<close>. The arguments are
  the display, the id returned by \<open>reader.read_no_block()\<close> (\<open>card_id\<close> below) and the
  value \<open>time.time()\<close> has at this iteration (read only on a removal). On a new card
  the source assigns \<open>current_card\<close>, then calls \<open>display_message\<close>, then resets the
  removal variables, all inside \<open>with state_lock\<close>. The loop has no \<open>try\<close>: when the
  notification raises, the lock is released, the reset and the final sleep are
  skipped and the exception ends the reader thread.
\<close>

definition rfid_reader_thread_body ::
  "oled \<Rightarrow> int option \<Rightarrow> real \<Rightarrow> shared_state \<Rightarrow> shared_state \<times> unit io" where
  "rfid_reader_thread_body disp reading now s =
     (case reading of
        Some card_id \<Rightarrow>
          if current_card s \<noteq> Some card_id then
            (let s1 = s\<lparr>current_card := Some card_id\<rparr>;
                 shown =
                   (if card_id = AUTHORIZED_ID then display_message disp ''AUTHORIZED''
                    else display_message disp ''UNAUTHORIZED'')
             in case shown of
                  (evs, Inl e) \<Rightarrow>
                    (s1, ([ReaderPoll, LockAcquire] @ evs @ [LockRelease], Inl e))
                | (evs, Inr _) \<Rightarrow>
                    (s1\<lparr>last_removed_time := None, image_captured := False,
                        qr_displayed := False\<rparr>,
                     ([ReaderPoll, LockAcquire] @ evs @ [LockRelease, Sleep (1 / 10)],
                      Inr ())))
          else (s, ([ReaderPoll, LockAcquire, LockRelease, Sleep (1 / 10)], Inr ()))
      | None \<Rightarrow>
          if current_card s \<noteq> None then
            (s\<lparr>last_removed_time := Some now,
               last_removed_authorized := (current_card s = Some AUTHORIZED_ID),
               current_card := None\<rparr>,
             ([ReaderPoll, LockAcquire, LockRelease, Sleep (1 / 10)], Inr ()))
          else (s, ([ReaderPoll, LockAcquire, LockRelease, Sleep (1 / 10)], Inr ())))"

text \<open>
  An iteration of the reader loop that runs to its end: the display answers. The
  result is the new state and the trace.
\<close>

definition rfid_iteration ::
  "int option \<Rightarrow> real \<Rightarrow> shared_state \<Rightarrow> shared_state \<times> event list" where
  "rfid_iteration reading now s =
     (fst (rfid_reader_thread_body oled_ok reading now s),
      fst (snd (rfid_reader_thread_body oled_ok reading now s)))"

text \<open>
  One iteration of the loop of \<open>timeout_handler_thread\<close>; \<open>now\<close> is \<open>time.time()\<close>.
  The two \<open>if\<close> statements run one after the other on the same \<open>elapsed\<close>.
\<close>

definition timeout_handler_thread_body ::
  "real \<Rightarrow> shared_state \<Rightarrow> shared_state \<times> event list" where
  "timeout_handler_thread_body now s =
     (case last_removed_time s of
        None \<Rightarrow> (s, [LockAcquire, LockRelease, Sleep (1 / 10)])
      | Some t0 \<Rightarrow>
          (let elapsed = now - t0;
               (s1, ev1) =
                 (if elapsed \<ge> 5 \<and> \<not> image_captured s
                  then (s\<lparr>image_captured := True\<rparr>, [ThreadStart CaptureTask])
                  else (s, []));
               (s2, ev2) =
                 (if last_removed_authorized s1 \<and> elapsed \<ge> 6 \<and> \<not> qr_displayed s1
                  then (s1\<lparr>qr_displayed := True\<rparr>, [ThreadStart QrTask])
                  else (s1, []))
           in (s2, [LockAcquire] @ ev1 @ ev2 @ [LockRelease, Sleep (1 / 10)])))"

section \<open>Interleavings\<close>

text \<open>
  The shared variables are read and written only inside \<open>with state_lock\<close>, so an
  execution of the program acts on them as a sequence of these steps: an iteration of
  the reader loop that runs to its end, an iteration of the timeout loop, the end of
  a run of \<open>capture_image\<close> (its only access to the variables), a run of
  \<open>display_qr\<close>. A thread that raises ends alone: the exception reaches no other
  thread. An iteration of the reader loop whose notification raises is therefore the
  last step of the reader thread; it is \<open>rfid_reader_thread_body\<close> at a display that
  does not answer, applied to the state the steps before it have reached.
\<close>

datatype operation =
    RfidTick "int option" real
  | TimeoutTick real
  | RunCapture camera string
  | RunDisplayQr qr_env

fun run_op :: "operation \<Rightarrow> shared_state \<Rightarrow> shared_state \<times> event list" where
  "run_op (RfidTick reading now) s = rfid_iteration reading now s"
| "run_op (TimeoutTick now) s = timeout_handler_thread_body now s"
| "run_op (RunCapture cam timestamp) s =
     (fst (capture_image cam timestamp s), fst (snd (capture_image cam timestamp s)))"
| "run_op (RunDisplayQr env) s = (s, fst (display_qr env))"

fun run_ops :: "operation list \<Rightarrow> shared_state \<Rightarrow> shared_state" where
  "run_ops [] s = s"
| "run_ops (op # ops) s = run_ops ops (fst (run_op op s))"

text \<open>
  A finite prefix of the reader loop: one iteration for each reading, in order, each
  running to its end. Each reading comes with the clock value of its iteration.
\<close>

fun rfid_reader_thread :: "(int option \<times> real) list \<Rightarrow> shared_state \<Rightarrow> shared_state" where
  "rfid_reader_thread [] s = s"
| "rfid_reader_thread ((reading, now) # rest) s =
     rfid_reader_thread rest (fst (rfid_iteration reading now s))"

text \<open>Module start-up touches the file system once: \<open>os.makedirs(IMAGE_DIRECTORY, exist_ok=True)\<close>.\<close>

definition startup :: "event list" where
  "startup = [MakeDirs IMAGE_DIRECTORY]"

section \<open>Observations on traces and episodes\<close>

text \<open>The threads a trace starts, in order.\<close>

fun spawned :: "event list \<Rightarrow> task list" where
  "spawned [] = []"
| "spawned (ThreadStart t # es) = t # spawned es"
| "spawned (e # es) = spawned es"

text \<open>
  The two checks of the timeout loop, as seen from outside: does the iteration at
  clock value \<open>now\<close> start the capture thread, does it start the QR thread.
\<close>

definition capture_fired :: "real \<Rightarrow> shared_state \<Rightarrow> bool" where
  "capture_fired now s \<longleftrightarrow>
     CaptureTask \<in> set (spawned (snd (timeout_handler_thread_body now s)))"

definition code_display_fired :: "real \<Rightarrow> shared_state \<Rightarrow> bool" where
  "code_display_fired now s \<longleftrightarrow>
     QrTask \<in> set (spawned (snd (timeout_handler_thread_body now s)))"

text \<open>
  A removal episode is born when the reader loop sees no card while one is tracked,
  and lasts while \<open>last_removed_time\<close> stays set. \<open>open_episode t0 s\<close> is the state
  right after the iteration that sees the removal at clock value \<open>t0\<close>;
  \<open>episode_spawns ops s\<close> lists the threads started by the steps \<open>ops\<close> for as long
  as the removal event of \<open>s\<close> is still there.
\<close>

definition open_episode :: "real \<Rightarrow> shared_state \<Rightarrow> shared_state" where
  "open_episode t0 s = fst (rfid_iteration None t0 s)"

fun episode_spawns :: "operation list \<Rightarrow> shared_state \<Rightarrow> task list" where
  "episode_spawns [] s = []"
| "episode_spawns (op # ops) s =
     (if last_removed_time s = None then []
      else spawned (snd (run_op op s)) @ episode_spawns ops (fst (run_op op s)))"

text \<open>
  The blocking calls: sleeps, drawing on the display, the camera. A trace holds the
  lock across a blocking call when such an event lies between a \<open>LockAcquire\<close> and
  the next \<open>LockRelease\<close>.
\<close>

fun blocking :: "event \<Rightarrow> bool" where
  "blocking (Sleep d) = True"
| "blocking (DrawText pos msg) = True"
| "blocking DrawBlank = True"
| "blocking (DrawBitmap pos img) = True"
| "blocking DeviceClear = True"
| "blocking CameraStart = True"
| "blocking (CameraCapture path) = True"
| "blocking CameraStop = True"
| "blocking e = False"

fun held_across_blocking :: "bool \<Rightarrow> event list \<Rightarrow> bool" where
  "held_across_blocking held [] = False"
| "held_across_blocking held (LockAcquire # es) = held_across_blocking True es"
| "held_across_blocking held (LockRelease # es) = held_across_blocking False es"
| "held_across_blocking held (e # es) = ((held \<and> blocking e) \<or> held_across_blocking held es)"

text \<open>The paths a trace writes to: \<open>img.save\<close> and \<open>picam2.capture_file\<close>.\<close>

fun files_written :: "event list \<Rightarrow> string list" where
  "files_written [] = []"
| "files_written (FileWrite path # es) = path # files_written es"
| "files_written (CameraCapture path # es) = path # files_written es"
| "files_written (e # es) = files_written es"

definition is_capture_file :: "string \<Rightarrow> bool" where
  "is_capture_file path \<longleftrightarrow>
     prefix (IMAGE_DIRECTORY @ ''/image_'') path \<and> suffix ''.jpg'' path"

text \<open>
  The first exception raised inside the \<open>try\<close> block of \<open>display_qr\<close>, following the
  order of its calls: read, encode, save, draw, clear.
\<close>

definition try_block_failure :: "qr_env \<Rightarrow> py_exception option" where
  "try_block_failure env =
     (case read_log env of
        Inl e \<Rightarrow> Some e
      | Inr raw \<Rightarrow>
          (case qr_encode env (strip raw) of
             Inl e \<Rightarrow> Some e
           | Inr img \<Rightarrow>
               (case save_image env of
                  Inl e \<Rightarrow> Some e
                | Inr _ \<Rightarrow>
                    (case draw_bitmap env of
                       Inl e \<Rightarrow> Some e
                     | Inr _ \<Rightarrow>
                         (case clear_device env of
                            Inl e \<Rightarrow> Some e
                          | Inr _ \<Rightarrow> None)))))"

text \<open>
  The outcomes of a run of \<open>display_qr\<close> in which every call returns: the file holds
  \<open>raw\<close> and the encoder produces \<open>img\<close>.
\<close>

definition returning_qr_env :: "pystr \<Rightarrow> image \<Rightarrow> qr_env" where
  "returning_qr_env raw img =
     \<lparr>read_log = Inr raw, qr_encode = (\<lambda>data. Inr img), save_image = Inr (),
      draw_bitmap = Inr (), clear_device = Inr (), handler_clear = Inr ()\<rparr>"

text \<open>All three camera calls of one run of \<open>capture_image\<close> return.\<close>

definition camera_ok :: "camera \<Rightarrow> bool" where
  "camera_ok cam \<longleftrightarrow>
     cam_start cam = Inr () \<and> cam_capture_file cam = Inr () \<and> cam_stop cam = Inr ()"

text \<open>
  The polls of an episode: the clock values of the timeout iterations among the
  steps \<open>ops\<close> that run before the episode ends, that is before a reader iteration
  sees a card and before a run of \<open>capture_image\<close> reaches its reset.
\<close>

fun episode_polls :: "operation list \<Rightarrow> real list" where
  "episode_polls [] = []"
| "episode_polls (TimeoutTick now # ops) = now # episode_polls ops"
| "episode_polls (RfidTick None now # ops) = episode_polls ops"
| "episode_polls (RfidTick (Some card_id) now # ops) = []"
| "episode_polls (RunCapture cam timestamp # ops) =
     (if camera_ok cam then [] else episode_polls ops)"
| "episode_polls (RunDisplayQr env # ops) = episode_polls ops"

text \<open>
  What every state reached by steps that run to their end satisfies: no removal
  event while a card is tracked, and both flags down while there is no removal event.
\<close>

definition episode_inv :: "shared_state \<Rightarrow> bool" where
  "episode_inv s \<longleftrightarrow>
     (current_card s \<noteq> None \<longrightarrow> last_removed_time s = None) \<and>
     (last_removed_time s = None \<longrightarrow> \<not> image_captured s \<and> \<not> qr_displayed s)"

section \<open>The steps, one field at a time\<close>

lemma rfid_body_state:
  "fst (rfid_iteration reading now s) =
     (case reading of
        Some card_id \<Rightarrow>
          if current_card s \<noteq> Some card_id then
            s\<lparr>current_card := Some card_id, last_removed_time := None,
              image_captured := False, qr_displayed := False\<rparr>
          else s
      | None \<Rightarrow>
          if current_card s \<noteq> None then
            s\<lparr>last_removed_time := Some now,
              last_removed_authorized := (current_card s = Some AUTHORIZED_ID),
              current_card := None\<rparr>
          else s)"
  by (simp add: rfid_iteration_def rfid_reader_thread_body_def display_message_def oled_ok_def
      io_bind_def io_emit_def split: option.splits)

lemma rfid_body_current_card:
  "current_card (fst (rfid_iteration reading now s)) = reading"
  by (cases reading) (auto simp: rfid_body_state)

lemma rfid_body_events:
  "snd (rfid_iteration reading now s) =
     [ReaderPoll, LockAcquire] @
     (case reading of
        Some card_id \<Rightarrow>
          if current_card s \<noteq> Some card_id then
            [Print (LogDisplaying (if card_id = AUTHORIZED_ID then ''AUTHORIZED''
                                   else ''UNAUTHORIZED'')),
             DrawText (30, 20) (if card_id = AUTHORIZED_ID then ''AUTHORIZED''
                                else ''UNAUTHORIZED''),
             Sleep 2, DrawBlank]
          else []
      | None \<Rightarrow> []) @
     [LockRelease, Sleep (1 / 10)]"
  by (simp add: rfid_iteration_def rfid_reader_thread_body_def display_message_def oled_ok_def
      io_bind_def io_emit_def split: option.splits)

lemma rfid_body_spawned: "spawned (snd (rfid_iteration reading now s)) = []"
  by (simp add: rfid_body_events split: option.splits)

lemma timeout_body_state:
  "fst (timeout_handler_thread_body now s) =
     (case last_removed_time s of
        None \<Rightarrow> s
      | Some t0 \<Rightarrow>
          s\<lparr>image_captured := (image_captured s \<or> now - t0 \<ge> 5),
            qr_displayed := (qr_displayed s \<or> (last_removed_authorized s \<and> now - t0 \<ge> 6))\<rparr>)"
  by (auto simp: timeout_handler_thread_body_def Let_def split: option.splits)

lemma timeout_body_spawned:
  "spawned (snd (timeout_handler_thread_body now s)) =
     (case last_removed_time s of
        None \<Rightarrow> []
      | Some t0 \<Rightarrow>
          (if now - t0 \<ge> 5 \<and> \<not> image_captured s then [CaptureTask] else []) @
          (if last_removed_authorized s \<and> now - t0 \<ge> 6 \<and> \<not> qr_displayed s
           then [QrTask] else []))"
  by (auto simp: timeout_handler_thread_body_def Let_def split: option.splits)

lemma capture_image_state:
  "fst (capture_image cam timestamp s) =
     (if camera_ok cam
      then s\<lparr>last_removed_time := None, image_captured := False, qr_displayed := False\<rparr>
      else s)"
  by (auto simp: capture_image_def camera_ok_def io_bind_def io_emit_def Let_def
      split: sum.splits)

lemma capture_image_spawned: "spawned (fst (snd (capture_image cam timestamp s))) = []"
  by (auto simp: capture_image_def io_bind_def io_emit_def Let_def split: sum.splits)

lemma display_qr_spawned: "spawned (fst (display_qr env)) = []"
  by (auto simp: display_qr_def generate_qr_code_def display_qr_native_def io_catch_def
      io_bind_def io_emit_def Let_def split: sum.splits prod.splits)

section \<open>Presence tracking\<close>

text \<open>
  Claim C1. After the reader loop has processed any non-empty finite sequence of
  readings, from any state, \<open>current_card\<close> is the last reading: the id of that
  reading when it shows a card, \<open>None\<close> when it shows none.
\<close>

theorem presence_follows_last_reading:
  "readings \<noteq> [] \<Longrightarrow>
     current_card (rfid_reader_thread readings s) = fst (last readings)"
proof (induction readings arbitrary: s)
  case Nil
  then show ?case by simp
next
  case (Cons r rest)
  obtain reading now where r: "r = (reading, now)" by (cases r)
  show ?case
  proof (cases "rest = []")
    case True
    then show ?thesis by (simp add: r rfid_body_current_card)
  next
    case False
    then show ?thesis using Cons.IH [OF False] by (simp add: r)
  qed
qed

theorem presence_follows_last_reading_witness:
  "[(Some 42, 0), (None, 1), (Some 7, 2)] \<noteq> ([] :: (int option \<times> real) list) \<and>
   current_card (rfid_reader_thread [(Some 42, 0), (None, 1), (Some 7, 2)] initial_state)
     = Some 7"
  using presence_follows_last_reading [of "[(Some 42, 0), (None, 1), (Some 7, 2)]" initial_state]
  by simp

text \<open>
  The same holds of an iteration whose notification raises: \<open>current_card\<close> is
  assigned before \<open>display_message\<close> is called.
\<close>

lemma rfid_body_current_card_any_display:
  "current_card (fst (rfid_reader_thread_body disp reading now s)) = reading"
  by (cases reading)
    (auto simp: rfid_reader_thread_body_def Let_def split: sum.splits prod.splits)

text \<open>
  The reader loop is the only writer of \<open>current_card\<close>: among interleaved steps of
  all kinds, the tracked card is the reading of the last reader iteration.
\<close>

lemma only_reader_writes_current_card:
  "current_card (fst (run_op op s)) =
     (case op of RfidTick reading now \<Rightarrow> reading | _ \<Rightarrow> current_card s)"
  by (cases op)
    (simp_all add: rfid_body_current_card timeout_body_state capture_image_state
      split: option.splits)

section \<open>The invariant of the shared variables\<close>

lemma run_op_state:
  "fst (run_op op s) =
     (case op of
        RfidTick reading now \<Rightarrow> fst (rfid_iteration reading now s)
      | TimeoutTick now \<Rightarrow> fst (timeout_handler_thread_body now s)
      | RunCapture cam timestamp \<Rightarrow> fst (capture_image cam timestamp s)
      | RunDisplayQr env \<Rightarrow> s)"
  by (cases op) simp_all

lemma episode_inv_initial: "episode_inv initial_state"
  by (simp add: episode_inv_def initial_state_def)

lemma episode_inv_step: "episode_inv s \<Longrightarrow> episode_inv (fst (run_op op s))"
  by (cases op)
    (auto simp: episode_inv_def run_op_state rfid_body_state timeout_body_state capture_image_state
      split: option.splits if_splits)

lemma episode_inv_run_ops: "episode_inv s \<Longrightarrow> episode_inv (run_ops ops s)"
  by (induction ops arbitrary: s) (simp_all add: episode_inv_step)

text \<open>
  Steps that run to their end keep invariant I1: after any sequence of them from the
  initial state, a tracked card means there is no removal event.
\<close>

lemma completed_steps_keep_I1:
  "current_card (run_ops ops initial_state) \<noteq> None \<Longrightarrow>
     last_removed_time (run_ops ops initial_state) = None"
  using episode_inv_run_ops [OF episode_inv_initial, of ops]
  by (simp add: episode_inv_def)

text \<open>
  An iteration that adopts a card and whose notification raises stops between the
  assignment of \<open>current_card\<close> and the reset: only \<open>current_card\<close> has changed.
\<close>

lemma aborted_iteration_state:
  assumes "snd (snd (rfid_reader_thread_body disp reading now s)) = Inl e"
  shows "\<exists>card_id. reading = Some card_id \<and> current_card s \<noteq> Some card_id \<and>
           fst (rfid_reader_thread_body disp reading now s) = s\<lparr>current_card := Some card_id\<rparr>"
  using assms
  by (cases reading)
    (auto simp: rfid_reader_thread_body_def Let_def split: if_splits sum.splits prod.splits)

text \<open>
  Claim C2 (invariant I1), on the code. Card 42 is seen at 0 and removed at 1, which
  opens a removal event; at 2 the card is seen again and the display does not answer.
  \<open>display_message\<close> raises inside \<open>with state_lock\<close>, after \<open>current_card = id\<close> and
  before \<open>last_removed_time = None\<close>: the reader thread ends in a state where a card
  is tracked and the removal event is still there, and the timeout loop, which goes
  on, starts the capture at 6 with the card present.
\<close>

theorem aborted_notification_breaks_I1:
  "rfid_reader_thread_body
     \<lparr>draw_text = Inl (Exception ''i2c''), draw_blank = Inl (Exception ''i2c'')\<rparr>
     (Some 42) 2 (run_ops [RfidTick (Some 42) 0, RfidTick None 1] initial_state) =
   (\<lparr>current_card = Some 42, last_removed_time = Some 1, last_removed_authorized = False,
      image_captured = False, qr_displayed = False\<rparr>,
    [ReaderPoll, LockAcquire, Print (LogDisplaying ''UNAUTHORIZED''),
     DrawText (30, 20) ''UNAUTHORIZED'', LockRelease],
    Inl (Exception ''i2c'')) \<and>
   capture_fired 6
     \<lparr>current_card = Some 42, last_removed_time = Some 1, last_removed_authorized = False,
      image_captured = False, qr_displayed = False\<rparr>"
  by (simp add: rfid_reader_thread_body_def display_message_def io_bind_def io_emit_def
      rfid_body_state initial_state_def AUTHORIZED_ID_def capture_fired_def
      timeout_body_spawned)

section \<open>Removal episodes\<close>

lemma episode_spawns_closed: "last_removed_time s = None \<Longrightarrow> episode_spawns ops s = []"
  by (cases ops) simp_all

lemma episode_spawns_step:
  "last_removed_time s = Some t0 \<Longrightarrow>
     episode_spawns (op # ops) s =
       spawned (snd (run_op op s)) @ episode_spawns ops (fst (run_op op s))"
  by simp

lemma other_ops_quiet:
  assumes "\<forall>now. op \<noteq> TimeoutTick now" and "current_card s = None"
  shows "spawned (snd (run_op op s)) = []"
    and "fst (run_op op s) = s \<or> last_removed_time (fst (run_op op s)) = None"
proof -
  show "spawned (snd (run_op op s)) = []"
    using assms(1)
    by (cases op) (simp_all add: rfid_body_spawned capture_image_spawned display_qr_spawned)
  show "fst (run_op op s) = s \<or> last_removed_time (fst (run_op op s)) = None"
  proof (cases op)
    case (RfidTick reading now)
    then show ?thesis using assms(2) by (cases reading) (simp_all add: rfid_body_state)
  next
    case (TimeoutTick now)
    then show ?thesis using assms(1) by simp
  next
    case (RunCapture cam timestamp)
    then show ?thesis by (simp add: capture_image_state)
  next
    case (RunDisplayQr env)
    then show ?thesis by simp
  qed
qed

lemma episode_capture_bound:
  "current_card s = None \<Longrightarrow>
     count_list (episode_spawns ops s) CaptureTask \<le> (if image_captured s then 0 else 1)"
proof (induction ops arbitrary: s)
  case Nil
  then show ?case by simp
next
  case (Cons op ops)
  show ?case
  proof (cases "last_removed_time s")
    case None
    then show ?thesis by simp
  next
    case (Some t0)
    let ?s' = "fst (run_op op s)"
    let ?here = "spawned (snd (run_op op s))"
    have step: "episode_spawns (op # ops) s = ?here @ episode_spawns ops ?s'"
      using Some by (rule episode_spawns_step)
    show ?thesis
    proof (cases "\<exists>now. op = TimeoutTick now")
      case True
      then obtain now where op: "op = TimeoutTick now" ..
      have cc: "current_card ?s' = None"
        using Cons.prems Some by (simp add: op timeout_body_state)
      have ic: "image_captured ?s' = (image_captured s \<or> now - t0 \<ge> 5)"
        using Some by (simp add: op timeout_body_state)
      have here: "count_list ?here CaptureTask =
          (if now - t0 \<ge> 5 \<and> \<not> image_captured s then 1 else 0)"
        using Some by (simp add: op timeout_body_spawned)
      have "count_list (episode_spawns ops ?s') CaptureTask
          \<le> (if image_captured ?s' then 0 else 1)"
        by (rule Cons.IH [OF cc])
      then show ?thesis
        unfolding step count_list_append here ic by (simp split: if_splits)
    next
      case False
      then have other: "\<forall>now. op \<noteq> TimeoutTick now" by simp
      have none: "?here = []"
        by (rule other_ops_quiet(1) [OF other Cons.prems])
      have "?s' = s \<or> last_removed_time ?s' = None"
        by (rule other_ops_quiet(2) [OF other Cons.prems])
      then show ?thesis
      proof
        assume same: "?s' = s"
        show ?thesis
          unfolding step none same using Cons.IH [OF Cons.prems] by simp
      next
        assume "last_removed_time ?s' = None"
        then have "episode_spawns ops ?s' = []" by (rule episode_spawns_closed)
        then show ?thesis
          unfolding step none by simp
      qed
    qed
  qed
qed

lemma poll_capture_count:
  "last_removed_time s = Some t0 \<Longrightarrow>
     count_list (episode_spawns (map TimeoutTick nows) s) CaptureTask =
       (if \<not> image_captured s \<and> (\<exists>now \<in> set nows. now - t0 \<ge> 5) then 1 else 0)"
proof (induction nows arbitrary: s)
  case Nil
  then show ?case by simp
next
  case (Cons now nows)
  let ?s' = "fst (run_op (TimeoutTick now) s)"
  have lrt: "last_removed_time ?s' = Some t0"
    using Cons.prems by (simp add: timeout_body_state)
  have ic: "image_captured ?s' = (image_captured s \<or> now - t0 \<ge> 5)"
    using Cons.prems by (simp add: timeout_body_state)
  have here: "count_list (spawned (snd (run_op (TimeoutTick now) s))) CaptureTask =
      (if now - t0 \<ge> 5 \<and> \<not> image_captured s then 1 else 0)"
    using Cons.prems by (simp add: timeout_body_spawned)
  have "episode_spawns (map TimeoutTick (now # nows)) s =
      spawned (snd (run_op (TimeoutTick now) s)) @ episode_spawns (map TimeoutTick nows) ?s'"
    using Cons.prems by simp
  then show ?case
    using Cons.IH [OF lrt] here ic by auto
qed

lemma open_episode_state:
  "current_card s = Some c \<Longrightarrow>
     open_episode t0 s =
       s\<lparr>last_removed_time := Some t0, last_removed_authorized := (c = AUTHORIZED_ID),
         current_card := None\<rparr>"
  by (simp add: open_episode_def rfid_body_state)

lemma episode_polls_of_polls: "episode_polls (map TimeoutTick nows) = nows"
  by (induction nows) simp_all

lemma episode_capture_count:
  "current_card s = None \<Longrightarrow> last_removed_time s = Some t0 \<Longrightarrow>
     count_list (episode_spawns ops s) CaptureTask =
       (if \<not> image_captured s \<and> (\<exists>now \<in> set (episode_polls ops). now - t0 \<ge> 5)
        then 1 else 0)"
proof (induction ops arbitrary: s)
  case Nil
  then show ?case by simp
next
  case (Cons op ops)
  let ?s' = "fst (run_op op s)"
  let ?here = "spawned (snd (run_op op s))"
  have step: "episode_spawns (op # ops) s = ?here @ episode_spawns ops ?s'"
    using Cons.prems(2) by (rule episode_spawns_step)
  show ?case
  proof (cases op)
    case (TimeoutTick now)
    have cc: "current_card ?s' = None" and lrt: "last_removed_time ?s' = Some t0"
      and ic: "image_captured ?s' = (image_captured s \<or> now - t0 \<ge> 5)"
      using Cons.prems by (simp_all add: TimeoutTick timeout_body_state)
    have here: "count_list ?here CaptureTask =
        (if now - t0 \<ge> 5 \<and> \<not> image_captured s then 1 else 0)"
      using Cons.prems by (simp add: TimeoutTick timeout_body_spawned)
    have polls: "episode_polls (op # ops) = now # episode_polls ops"
      by (simp add: TimeoutTick)
    show ?thesis
      unfolding step count_list_append here polls Cons.IH [OF cc lrt] ic by auto
  next
    case (RfidTick reading now)
    have none: "?here = []"
      by (simp add: RfidTick rfid_body_spawned)
    show ?thesis
    proof (cases reading)
      case None
      have same: "?s' = s"
        using Cons.prems by (simp add: RfidTick None rfid_body_state)
      have polls: "episode_polls (op # ops) = episode_polls ops"
        by (simp add: RfidTick None)
      show ?thesis
        unfolding step none same polls using Cons.IH [OF Cons.prems] by simp
    next
      case (Some card_id)
      have "last_removed_time ?s' = None"
        using Cons.prems by (simp add: RfidTick Some rfid_body_state)
      then have closed: "episode_spawns ops ?s' = []" by (rule episode_spawns_closed)
      have polls: "episode_polls (op # ops) = []"
        by (simp add: RfidTick Some)
      show ?thesis
        unfolding step none closed polls by simp
    qed
  next
    case (RunCapture cam timestamp)
    have none: "?here = []"
      by (simp add: RunCapture capture_image_spawned)
    show ?thesis
    proof (cases "camera_ok cam")
      case True
      have "last_removed_time ?s' = None"
        using True by (simp add: RunCapture capture_image_state)
      then have closed: "episode_spawns ops ?s' = []" by (rule episode_spawns_closed)
      have polls: "episode_polls (op # ops) = []"
        using True by (simp add: RunCapture)
      show ?thesis
        unfolding step none closed polls by simp
    next
      case False
      have same: "?s' = s"
        using False by (simp add: RunCapture capture_image_state)
      have polls: "episode_polls (op # ops) = episode_polls ops"
        using False by (simp add: RunCapture)
      show ?thesis
        unfolding step none same polls using Cons.IH [OF Cons.prems] by simp
    qed
  next
    case (RunDisplayQr env)
    have none: "?here = []"
      by (simp add: RunDisplayQr display_qr_spawned)
    have same: "?s' = s"
      by (simp add: RunDisplayQr)
    have polls: "episode_polls (op # ops) = episode_polls ops"
      by (simp add: RunDisplayQr)
    show ?thesis
      unfolding step none same polls using Cons.IH [OF Cons.prems] by simp
  qed
qed

text \<open>
  Claim C3, amended. In the episode opened by the removal of a tracked card in a
  state the program has reached, the timeout loop starts the capture thread at most
  once, whatever steps run while the removal event lasts, reader iterations
  included; and it starts it exactly once when some poll of the episode has
  \<open>now - t0 \<ge> 5\<close>, and not at all otherwise.
\<close>

theorem capture_at_most_once_per_episode:
  assumes "current_card (run_ops pre initial_state) = Some c"
  shows "count_list (episode_spawns ops (open_episode t0 (run_ops pre initial_state))) CaptureTask \<le> 1 \<and>
         count_list (episode_spawns ops (open_episode t0 (run_ops pre initial_state))) CaptureTask =
           (if \<exists>now \<in> set (episode_polls ops). now - t0 \<ge> 5 then 1 else 0)"
proof -
  let ?s = "run_ops pre initial_state"
  let ?ep = "open_episode t0 ?s"
  have inv: "episode_inv ?s"
    by (rule episode_inv_run_ops [OF episode_inv_initial])
  with assms have "\<not> image_captured ?s"
    by (simp add: episode_inv_def)
  then have fresh: "\<not> image_captured ?ep"
    using assms by (simp add: open_episode_state)
  have cc: "current_card ?ep = None" and lrt: "last_removed_time ?ep = Some t0"
    using assms by (simp_all add: open_episode_state)
  have eq: "count_list (episode_spawns ops ?ep) CaptureTask =
      (if \<exists>now \<in> set (episode_polls ops). now - t0 \<ge> 5 then 1 else 0)"
    using episode_capture_count [OF cc lrt, of ops] fresh by simp
  then have "count_list (episode_spawns ops ?ep) CaptureTask \<le> 1"
    by (simp split: if_splits)
  with eq show ?thesis by simp
qed

theorem capture_at_most_once_per_episode_witness:
  "current_card (run_ops [RfidTick (Some 42) 0] initial_state) = Some 42 \<and>
   (\<exists>now \<in> set (episode_polls
       [RfidTick None 11, TimeoutTick 14, RfidTick None 15, TimeoutTick 15, TimeoutTick 16]).
      now - 10 \<ge> 5) \<and>
   count_list (episode_spawns
       [RfidTick None 11, TimeoutTick 14, RfidTick None 15, TimeoutTick 15, TimeoutTick 16]
      (open_episode 10 (run_ops [RfidTick (Some 42) 0] initial_state))) CaptureTask = 1"
  using capture_at_most_once_per_episode
    [of "[RfidTick (Some 42) 0]" 42
       "[RfidTick None 11, TimeoutTick 14, RfidTick None 15, TimeoutTick 15, TimeoutTick 16]" 10]
  by (simp add: rfid_body_state rfid_body_spawned timeout_body_state timeout_body_spawned
      open_episode_def initial_state_def)

text \<open>
  The count is not always one: an episode opened at 10, polled at 11 and 12 and ended
  by the card's return at 13 starts no capture.
\<close>

theorem capture_exactly_once_counterexample:
  "\<not> (count_list
        (episode_spawns [TimeoutTick 11, TimeoutTick 12, RfidTick (Some 42) 13, TimeoutTick 19]
           (open_episode 10 (run_ops [RfidTick (Some 42) 0] initial_state)))
        CaptureTask = 1)"
  by (simp add: open_episode_def rfid_body_spawned rfid_body_state timeout_body_state timeout_body_spawned initial_state_def)

lemma episode_no_code_display:
  "current_card s = None \<Longrightarrow> \<not> last_removed_authorized s \<Longrightarrow>
     QrTask \<notin> set (episode_spawns ops s)"
proof (induction ops arbitrary: s)
  case Nil
  then show ?case by simp
next
  case (Cons op ops)
  show ?case
  proof (cases "last_removed_time s")
    case None
    then show ?thesis by simp
  next
    case (Some t0)
    let ?s' = "fst (run_op op s)"
    let ?here = "spawned (snd (run_op op s))"
    have step: "episode_spawns (op # ops) s = ?here @ episode_spawns ops ?s'"
      using Some by (rule episode_spawns_step)
    show ?thesis
    proof (cases "\<exists>now. op = TimeoutTick now")
      case True
      then obtain now where op: "op = TimeoutTick now" ..
      have cc: "current_card ?s' = None"
        using Cons.prems Some by (simp add: op timeout_body_state)
      have lra: "\<not> last_removed_authorized ?s'"
        using Cons.prems Some by (simp add: op timeout_body_state)
      have here: "QrTask \<notin> set ?here"
        using Cons.prems Some by (simp add: op timeout_body_spawned)
      show ?thesis
        unfolding step using here Cons.IH [OF cc lra] by simp
    next
      case False
      then have other: "\<forall>now. op \<noteq> TimeoutTick now" by simp
      have none: "?here = []"
        by (rule other_ops_quiet(1) [OF other Cons.prems(1)])
      have "?s' = s \<or> last_removed_time ?s' = None"
        by (rule other_ops_quiet(2) [OF other Cons.prems(1)])
      then show ?thesis
      proof
        assume same: "?s' = s"
        show ?thesis
          unfolding step none same using Cons.IH [OF Cons.prems] by simp
      next
        assume "last_removed_time ?s' = None"
        then have "episode_spawns ops ?s' = []" by (rule episode_spawns_closed)
        then show ?thesis
          unfolding step none by simp
      qed
    qed
  qed
qed

text \<open>
  Claim C6. In the episode opened by the removal of a card whose id is not
  \<open>AUTHORIZED_ID\<close>, no step starts the QR thread while the removal event lasts; so
  the QR check can succeed only in an episode whose removed id is \<open>AUTHORIZED_ID\<close>.
\<close>

theorem code_display_only_for_authorized:
  assumes "current_card s = Some c" and "c \<noteq> AUTHORIZED_ID"
  shows "QrTask \<notin> set (episode_spawns ops (open_episode t0 s))"
proof -
  have "current_card (open_episode t0 s) = None"
    and "\<not> last_removed_authorized (open_episode t0 s)"
    using assms by (simp_all add: open_episode_state)
  then show ?thesis by (rule episode_no_code_display)
qed

theorem code_display_only_for_authorized_witness:
  "current_card (run_ops [RfidTick (Some 42) 0] initial_state) = Some 42 \<and>
   42 \<noteq> AUTHORIZED_ID \<and>
   QrTask \<notin> set (episode_spawns [TimeoutTick 6, TimeoutTick 7, TimeoutTick 8]
     (open_episode 1 (run_ops [RfidTick (Some 42) 0] initial_state)))"
  using code_display_only_for_authorized
    [of "run_ops [RfidTick (Some 42) 0] initial_state" 42 "[TimeoutTick 6, TimeoutTick 7, TimeoutTick 8]" 1]
  by (simp add: rfid_body_state initial_state_def AUTHORIZED_ID_def)

text \<open>For the authorized card the check does succeed, here at 6 seconds after the removal.\<close>

lemma code_display_fires_for_authorized:
  "code_display_fired 7
     (open_episode 1 (run_ops [RfidTick (Some AUTHORIZED_ID) 0] initial_state))"
  by (simp add: code_display_fired_def open_episode_def rfid_body_state timeout_body_spawned
      initial_state_def)

section \<open>The capture threshold\<close>

lemma capture_fired_iff:
  "last_removed_time s = Some t0 \<Longrightarrow>
     capture_fired now s \<longleftrightarrow> now - t0 \<ge> 5 \<and> \<not> image_captured s"
  by (simp add: capture_fired_def timeout_body_spawned)

lemma polls_keep_episode:
  "last_removed_time s = Some t0 \<Longrightarrow>
     last_removed_time (run_ops (map TimeoutTick nows) s) = Some t0 \<and>
     image_captured (run_ops (map TimeoutTick nows) s) =
       (image_captured s \<or> (\<exists>n \<in> set nows. n - t0 \<ge> 5))"
proof (induction nows arbitrary: s)
  case Nil
  then show ?case by simp
next
  case (Cons n nows)
  let ?s' = "fst (timeout_handler_thread_body n s)"
  have lrt: "last_removed_time ?s' = Some t0"
    and ic: "image_captured ?s' = (image_captured s \<or> n - t0 \<ge> 5)"
    using Cons.prems by (simp_all add: timeout_body_state)
  show ?case
    using Cons.IH [OF lrt] ic by auto
qed

text \<open>
  Claim C7. In any state whose removal timestamp is \<open>t0\<close>, a poll at \<open>now\<close> starts
  the capture only if \<open>now - t0 \<ge> 5\<close>. In the episode opened at \<open>t0\<close> by the removal
  of a tracked card in a reachable state, the poll at \<open>now\<close> that follows the polls
  \<open>nows\<close> starts the capture exactly when \<open>now - t0 \<ge> 5\<close> and every earlier poll
  was before the threshold: so the first success is at or after 5 seconds, every
  earlier poll fails, and a poll at exactly 5 seconds succeeds.
\<close>

theorem capture_threshold:
  assumes "current_card (run_ops pre initial_state) = Some c"
  shows "(last_removed_time s1 = Some t0 \<longrightarrow> capture_fired now s1 \<longrightarrow> now - t0 \<ge> 5) \<and>
         (capture_fired now
            (run_ops (map TimeoutTick nows) (open_episode t0 (run_ops pre initial_state)))
          \<longleftrightarrow> now - t0 \<ge> 5 \<and> (\<forall>n \<in> set nows. n - t0 < 5))"
proof -
  let ?s = "run_ops pre initial_state"
  let ?ep = "open_episode t0 ?s"
  have "episode_inv ?s"
    by (rule episode_inv_run_ops [OF episode_inv_initial])
  with assms have "\<not> image_captured ?s"
    by (simp add: episode_inv_def)
  then have fresh: "\<not> image_captured ?ep"
    using assms by (simp add: open_episode_state)
  have lrt: "last_removed_time ?ep = Some t0"
    using assms by (simp add: open_episode_state)
  have after: "last_removed_time (run_ops (map TimeoutTick nows) ?ep) = Some t0"
    and ic: "image_captured (run_ops (map TimeoutTick nows) ?ep) = (\<exists>n \<in> set nows. n - t0 \<ge> 5)"
    using polls_keep_episode [OF lrt, of nows] fresh by simp_all
  have "capture_fired now (run_ops (map TimeoutTick nows) ?ep)
      \<longleftrightarrow> now - t0 \<ge> 5 \<and> (\<forall>n \<in> set nows. n - t0 < 5)"
    unfolding capture_fired_iff [OF after] ic by (auto simp: not_le)
  moreover have "last_removed_time s1 = Some t0 \<longrightarrow> capture_fired now s1 \<longrightarrow> now - t0 \<ge> 5"
    by (simp add: capture_fired_iff)
  ultimately show ?thesis by simp
qed

theorem capture_threshold_witness:
  "current_card (run_ops [RfidTick (Some 42) 0] initial_state) = Some 42 \<and>
   last_removed_time (open_episode 10 (run_ops [RfidTick (Some 42) 0] initial_state)) = Some 10 \<and>
   capture_fired 15 (open_episode 10 (run_ops [RfidTick (Some 42) 0] initial_state)) \<and>
   (15 :: real) - 10 \<ge> 5 \<and>
   capture_fired 15 (run_ops (map TimeoutTick [11, 12, 149 / 10])
      (open_episode 10 (run_ops [RfidTick (Some 42) 0] initial_state)))"
  using capture_threshold [where pre = "[RfidTick (Some 42) 0]" and c = 42
      and ?s1.0 = "open_episode 10 (run_ops [RfidTick (Some 42) 0] initial_state)"
      and ?t0.0 = 10 and now = 15 and nows = "[11, 12, 149 / 10]"]
  by (simp add: rfid_body_state initial_state_def open_episode_def capture_fired_def
      timeout_body_spawned)

section \<open>The end of an episode\<close>

text \<open>
  Claim C10. The reset at the end of a run of \<open>capture_image\<close> whose camera calls
  return sets \<open>last_removed_time\<close> to \<open>None\<close> and both flags to \<open>False\<close> and nothing
  else; no run of \<open>capture_image\<close> changes \<open>current_card\<close> or
  \<open>last_removed_authorized\<close>. The only step that changes \<open>last_removed_authorized\<close>
  is a reader iteration that sees no card while one is tracked. While there is no
  removal event, an iteration of the timeout loop does the same whatever the value of
  \<open>last_removed_authorized\<close>: it starts nothing and changes nothing.
\<close>

theorem episode_end_frame:
  "(camera_ok cam \<longrightarrow>
      fst (capture_image cam timestamp s) =
        s\<lparr>last_removed_time := None, image_captured := False, qr_displayed := False\<rparr>) \<and>
   current_card (fst (capture_image cam timestamp s)) = current_card s \<and>
   last_removed_authorized (fst (capture_image cam timestamp s)) = last_removed_authorized s \<and>
   (last_removed_authorized (fst (run_op op s)) \<noteq> last_removed_authorized s \<longrightarrow>
      (\<exists>t. op = RfidTick None t) \<and> current_card s \<noteq> None) \<and>
   (last_removed_time s = None \<longrightarrow>
      timeout_handler_thread_body now (s\<lparr>last_removed_authorized := b\<rparr>) =
        (s\<lparr>last_removed_authorized := b\<rparr>, snd (timeout_handler_thread_body now s)))"
proof -
  have reset: "camera_ok cam \<longrightarrow>
      fst (capture_image cam timestamp s) =
        s\<lparr>last_removed_time := None, image_captured := False, qr_displayed := False\<rparr>"
    by (simp add: capture_image_state)
  have kept: "current_card (fst (capture_image cam timestamp s)) = current_card s"
    "last_removed_authorized (fst (capture_image cam timestamp s)) = last_removed_authorized s"
    by (simp_all add: capture_image_state)
  have writer: "last_removed_authorized (fst (run_op op s)) \<noteq> last_removed_authorized s \<longrightarrow>
      (\<exists>t. op = RfidTick None t) \<and> current_card s \<noteq> None"
  proof (cases op)
    case (RfidTick reading now)
    then show ?thesis by (cases reading) (auto simp: rfid_body_state)
  next
    case (TimeoutTick now)
    then show ?thesis by (simp add: timeout_body_state split: option.splits)
  next
    case (RunCapture cam' timestamp')
    then show ?thesis by (simp add: capture_image_state)
  next
    case (RunDisplayQr env)
    then show ?thesis by simp
  qed
  have unread: "last_removed_time s = None \<longrightarrow>
      timeout_handler_thread_body now (s\<lparr>last_removed_authorized := b\<rparr>) =
        (s\<lparr>last_removed_authorized := b\<rparr>, snd (timeout_handler_thread_body now s))"
    by (simp add: timeout_handler_thread_body_def)
  from reset kept writer unread show ?thesis by blast
qed

theorem episode_end_frame_witness:
  "camera_ok \<lparr>cam_start = Inr (), cam_capture_file = Inr (), cam_stop = Inr ()\<rparr> \<and>
   last_removed_time (run_ops [RfidTick (Some AUTHORIZED_ID) 0] initial_state) = None \<and>
   last_removed_authorized
     (fst (run_op (RfidTick None 5) (run_ops [RfidTick (Some AUTHORIZED_ID) 0] initial_state)))
     \<noteq> last_removed_authorized (run_ops [RfidTick (Some AUTHORIZED_ID) 0] initial_state) \<and>
   current_card (run_ops [RfidTick (Some AUTHORIZED_ID) 0] initial_state) \<noteq> None \<and>
   fst (capture_image \<lparr>cam_start = Inr (), cam_capture_file = Inr (), cam_stop = Inr ()\<rparr>
        ''20240101-120000'' (run_ops [RfidTick (Some AUTHORIZED_ID) 0] initial_state)) =
     (run_ops [RfidTick (Some AUTHORIZED_ID) 0] initial_state)
       \<lparr>last_removed_time := None, image_captured := False, qr_displayed := False\<rparr>"
  using episode_end_frame
    [where cam = "\<lparr>cam_start = Inr (), cam_capture_file = Inr (), cam_stop = Inr ()\<rparr>"
       and timestamp = "''20240101-120000''"
       and s = "run_ops [RfidTick (Some AUTHORIZED_ID) 0] initial_state"
       and op = "RfidTick None 5" and now = 0 and b = True]
  by (simp add: camera_ok_def rfid_body_state initial_state_def)

section \<open>The lock and the blocking calls\<close>

text \<open>
  Claim C4, on the code. A reader iteration that sees a new card (here id 42 in the
  initial state) draws the notification and sleeps 2 seconds between acquiring and
  releasing \<open>state_lock\<close>: the lock is held across blocking calls.
\<close>

theorem notification_sleeps_under_lock:
  "fst (snd (rfid_reader_thread_body oled_ok (Some 42) 0 initial_state)) =
     [ReaderPoll, LockAcquire, Print (LogDisplaying ''UNAUTHORIZED''),
      DrawText (30, 20) ''UNAUTHORIZED'', Sleep 2, DrawBlank, LockRelease, Sleep (1 / 10)] \<and>
   held_across_blocking False
     (fst (snd (rfid_reader_thread_body oled_ok (Some 42) 0 initial_state)))"
  by (simp add: rfid_reader_thread_body_def display_message_def oled_ok_def io_bind_def
      io_emit_def initial_state_def AUTHORIZED_ID_def)

text \<open>
  That iteration is the only place: the reader loop holds the lock across a blocking
  call exactly when it adopts a new card, and the timeout loop, \<open>capture_image\<close> and
  \<open>display_qr\<close> never do.
\<close>

lemma rfid_body_lock:
  "held_across_blocking False (fst (snd (rfid_reader_thread_body disp reading now s))) \<longleftrightarrow>
     (\<exists>card_id. reading = Some card_id \<and> current_card s \<noteq> Some card_id)"
  by (cases reading)
    (auto simp: rfid_reader_thread_body_def display_message_def io_bind_def io_emit_def
      Let_def split: sum.splits prod.splits)

lemma timeout_body_lock:
  "\<not> held_across_blocking False (snd (timeout_handler_thread_body now s))"
  by (auto simp: timeout_handler_thread_body_def Let_def split: option.splits)

lemma capture_image_lock:
  "\<not> held_across_blocking False (fst (snd (capture_image cam timestamp s)))"
  by (auto simp: capture_image_def io_bind_def io_emit_def Let_def split: sum.splits)

lemma display_qr_lock: "\<not> held_across_blocking False (fst (display_qr env))"
  by (auto simp: display_qr_def generate_qr_code_def display_qr_native_def io_catch_def
      io_bind_def io_emit_def Let_def split: sum.splits prod.splits)

section \<open>A capture that fails\<close>

lemma failed_capture_resets_nothing:
  "\<not> camera_ok cam \<Longrightarrow> fst (capture_image cam timestamp s) = s"
  by (simp add: capture_image_state)

lemma failed_capture_raises:
  "\<not> camera_ok cam \<Longrightarrow> \<exists>e. snd (snd (capture_image cam timestamp s)) = Inl e"
  by (auto simp: capture_image_def camera_ok_def io_bind_def io_emit_def Let_def
      split: sum.splits)

text \<open>
  Claim C5, on the code. Card 42 is seen at 0 and removed at 1, the poll at 6 starts
  the capture thread, and \<open>picam2.capture_file\<close> raises. The run of \<open>capture_image\<close>
  ends at that call with the exception: the shared variables are as before, the
  removal event still open and \<open>image_captured\<close> still \<open>True\<close>, so no later poll
  starts a capture for it.
\<close>

theorem failed_capture_leaves_episode_open:
  "capture_image
     \<lparr>cam_start = Inr (), cam_capture_file = Inl (Exception ''capture failed''), cam_stop = Inr ()\<rparr>
     ''20240101-120000''
     \<lparr>current_card = None, last_removed_time = Some 1, last_removed_authorized = False,
      image_captured = True, qr_displayed = False\<rparr> =
   (\<lparr>current_card = None, last_removed_time = Some 1, last_removed_authorized = False,
      image_captured = True, qr_displayed = False\<rparr>,
    [Print LogTimeout, CameraStart, Sleep 2,
     CameraCapture ''/home/soham/captured_images/image_20240101-120000.jpg''],
    Inl (Exception ''capture failed'')) \<and>
   run_ops [RfidTick (Some 42) 0, RfidTick None 1, TimeoutTick 6] initial_state =
     \<lparr>current_card = None, last_removed_time = Some 1, last_removed_authorized = False,
      image_captured = True, qr_displayed = False\<rparr> \<and>
   \<not> capture_fired 1000
     \<lparr>current_card = None, last_removed_time = Some 1, last_removed_authorized = False,
      image_captured = True, qr_displayed = False\<rparr>"
  by (simp add: capture_image_def io_bind_def io_emit_def image_filename_def IMAGE_DIRECTORY_def
      rfid_body_state timeout_body_state initial_state_def AUTHORIZED_ID_def
      capture_fired_def timeout_body_spawned)

section \<open>A QR display that fails\<close>

lemma display_qr_handled:
  "try_block_failure env = Some e \<Longrightarrow>
     snd (display_qr env) = handler_clear env \<and>
     suffix [Print (LogQrError e), DeviceClear] (fst (display_qr env))"
  by (auto simp: try_block_failure_def display_qr_def generate_qr_code_def display_qr_native_def
      io_catch_def io_bind_def io_emit_def Let_def suffix_def split: sum.splits prod.splits)

lemma display_qr_undisturbed:
  "try_block_failure env = None \<Longrightarrow> snd (display_qr env) = Inr ()"
  by (auto simp: try_block_failure_def display_qr_def generate_qr_code_def display_qr_native_def
      io_catch_def io_bind_def io_emit_def Let_def split: sum.splits prod.splits)

text \<open>
  While the handler's own \<open>device.clear()\<close> returns, a failure inside the \<open>try\<close>
  block is contained: \<open>display_qr\<close> returns normally and the last two things it does
  are printing the error and clearing the display. A run of \<open>display_qr\<close> never
  touches the shared variables.
\<close>

lemma display_qr_contained_when_clear_returns:
  "try_block_failure env = Some e \<Longrightarrow> handler_clear env = Inr () \<Longrightarrow>
     snd (display_qr env) = Inr () \<and>
     suffix [Print (LogQrError e), DeviceClear] (fst (display_qr env))"
  by (simp add: display_qr_handled)

lemma display_qr_keeps_state: "fst (run_op (RunDisplayQr env) s) = s"
  by simp


section \<open>Files written\<close>

lemma rfid_body_files: "files_written (snd (rfid_iteration reading now s)) = []"
  by (simp add: rfid_body_events split: option.splits)

lemma rfid_body_files_any_display:
  "files_written (fst (snd (rfid_reader_thread_body disp reading now s))) = []"
  by (cases reading)
    (auto simp: rfid_reader_thread_body_def display_message_def io_bind_def io_emit_def
      Let_def split: sum.splits prod.splits)

lemma timeout_body_files: "files_written (snd (timeout_handler_thread_body now s)) = []"
  by (auto simp: timeout_handler_thread_body_def Let_def split: option.splits)

lemma capture_image_files:
  "set (files_written (fst (snd (capture_image cam timestamp s))))
     \<subseteq> {image_filename timestamp}"
  by (auto simp: capture_image_def io_bind_def io_emit_def Let_def split: sum.splits)

lemma display_qr_files: "set (files_written (fst (display_qr env))) \<subseteq> {SAVE_PATH}"
  by (auto simp: display_qr_def generate_qr_code_def display_qr_native_def io_catch_def
      io_bind_def io_emit_def Let_def split: sum.splits prod.splits)

lemma capture_file_name: "is_capture_file (image_filename stamp)"
  by (simp add: is_capture_file_def image_filename_def suffix_def prefix_def)

lemma save_path_outside: "\<not> is_capture_file SAVE_PATH"
  by (simp add: is_capture_file_def SAVE_PATH_def IMAGE_DIRECTORY_def)

text \<open>
  Claim C9, amended. A step writes no file other than these: a run of
  \<open>capture_image\<close> writes at most the image \<open>IMAGE_DIRECTORY/image_<stamp>.jpg\<close>, a
  run of \<open>display_qr\<close> writes at most \<open>SAVE_PATH\<close>, the two loops write none, and
  start-up writes none. \<open>SAVE_PATH\<close> is not a captured image.
\<close>

theorem files_written_by_the_program:
  "set (files_written (snd (run_op op s))) \<subseteq>
     (case op of
        RunCapture cam timestamp \<Rightarrow> {image_filename timestamp}
      | RunDisplayQr env \<Rightarrow> {SAVE_PATH}
      | _ \<Rightarrow> {}) \<and>
   files_written startup = [] \<and>
   is_capture_file (image_filename stamp) \<and>
   \<not> is_capture_file SAVE_PATH"
proof -
  have "set (files_written (snd (run_op op s))) \<subseteq>
     (case op of
        RunCapture cam timestamp \<Rightarrow> {image_filename timestamp}
      | RunDisplayQr env \<Rightarrow> {SAVE_PATH}
      | _ \<Rightarrow> {})"
    by (cases op)
      (simp_all add: rfid_body_files timeout_body_files capture_image_files display_qr_files)
  moreover have "files_written startup = []"
    by (simp add: startup_def)
  ultimately show ?thesis
    using capture_file_name save_path_outside by simp
qed

theorem files_written_by_the_program_witness:
  "files_written (snd (run_op (RunCapture \<lparr>cam_start = Inr (), cam_capture_file = Inr (), cam_stop = Inr ()\<rparr> ''20240101-120000'') initial_state))
     = [''/home/soham/captured_images/image_20240101-120000.jpg''] \<and>
   set (files_written (snd (run_op (RunCapture \<lparr>cam_start = Inr (), cam_capture_file = Inr (), cam_stop = Inr ()\<rparr> ''20240101-120000'') initial_state)))
     \<subseteq> {image_filename ''20240101-120000''}"
  using files_written_by_the_program
    [of "RunCapture \<lparr>cam_start = Inr (), cam_capture_file = Inr (), cam_stop = Inr ()\<rparr> ''20240101-120000''" initial_state "''20240101-120000''"]
  by (simp add: capture_image_def io_bind_def io_emit_def Let_def image_filename_def
      IMAGE_DIRECTORY_def)

text \<open>
  The captured images are not the only files: a run of \<open>display_qr\<close> in which every
  call returns writes the QR image to \<open>/home/soham/qr_debug.png\<close>.
\<close>

theorem qr_image_file_counterexample:
  "files_written (snd (run_op
       (RunDisplayQr (returning_qr_env [72, 105] \<lparr>img_size = (27, 27), img_pixels = []\<rparr>))
       initial_state)) = [''/home/soham/qr_debug.png''] \<and>
   \<not> is_capture_file ''/home/soham/qr_debug.png''"
  by (simp add: display_qr_def generate_qr_code_def display_qr_native_def io_catch_def
      io_bind_def io_emit_def Let_def returning_qr_env_def SAVE_PATH_def is_capture_file_def
      IMAGE_DIRECTORY_def)

end
